theory Spec2Isabelle
  imports Main "HOL-Library.Sublist"
begin

section \<open>Python values, exceptions and outcomes\<close>

text \<open>
  The module \<^verbatim>\<open>regex_utils.py\<close> wraps six string operations of PySpark around the
  regular-expression modules \<^verbatim>\<open>re2\<close> (linear time) and \<^verbatim>\<open>re\<close> (backtracking).
  Strings are lists of 8-bit characters.  An exception is a value of \<open>exn\<close>;
  \<open>Unmodelled\<close> is not a Python exception: it marks pattern or template syntax that
  the concrete engine of this development does not cover.
\<close>

datatype exn =
    PatternSyntaxError
  | UnsupportedConstruct
  | IndexError
  | KeyError
  | AnalysisException
  | Unmodelled

text \<open>
  A computation on one row either does not return (\<open>None\<close>), raises (\<open>Some (Inl e)\<close>)
  or returns a value (\<open>Some (Inr v)\<close>).
\<close>

type_synonym 'a outcome = "(exn + 'a) option"

definition obind :: "'a outcome \<Rightarrow> ('a \<Rightarrow> 'b outcome) \<Rightarrow> 'b outcome" where
  "obind x f = (case x of None \<Rightarrow> None | Some (Inl e) \<Rightarrow> Some (Inl e) | Some (Inr v) \<Rightarrow> f v)"

definition BSL :: char where
  "BSL = CHR 0x5C"

section \<open>The regex modules, over an abstract engine\<close>

text \<open>
  The modules \<^verbatim>\<open>re2\<close> and \<^verbatim>\<open>re\<close> are libraries outside the repository.  Their
  matching core is a parameter: an \<open>engine\<close> compiles a pattern text or raises, and a
  compiled \<open>matcher\<close> gives, for a text and a start position, the leftmost match at or
  after that position: the span of the whole match and one optional span per capture
  group (\<open>None\<close> for a group that did not participate).  The functions the source calls
  (\<^verbatim>\<open>search\<close>, \<^verbatim>\<open>split\<close>, \<^verbatim>\<open>sub\<close>, \<^verbatim>\<open>Match.group\<close>) are written over that core.
\<close>

type_synonym span = "nat \<times> nat"
type_synonym mres = "span \<times> span option list"
type_synonym matcher = "string \<Rightarrow> nat \<Rightarrow> mres option"
type_synonym engine = "string \<Rightarrow> exn + matcher"

record pymatch =
  m_text :: string
  m_span :: span
  m_groups :: "span option list"

definition mk_match :: "string \<Rightarrow> mres \<Rightarrow> pymatch" where
  "mk_match text r = \<lparr>m_text = text, m_span = fst r, m_groups = snd r\<rparr>"

text \<open>Python's slice \<^verbatim>\<open>text[s:e]\<close> for \<open>0 \<le> s\<close>, \<open>0 \<le> e\<close>: empty when \<open>e \<le> s\<close>.\<close>

definition slice :: "string \<Rightarrow> nat \<Rightarrow> nat \<Rightarrow> string" where
  "slice text s e = take (e - s) (drop s text)"

text \<open>
  \<^verbatim>\<open>Match.group(idx)\<close>: group 0 is the whole match; an index that is negative or larger
  than the number of groups of the pattern raises \<^verbatim>\<open>IndexError\<close>; a group that did not
  participate gives Python's \<^verbatim>\<open>None\<close>.
\<close>

definition group :: "pymatch \<Rightarrow> int \<Rightarrow> exn + string option" where
  "group m idx =
     (if 0 \<le> idx \<and> idx \<le> int (length (m_groups m)) then
        (if idx = 0 then Inr (Some (slice (m_text m) (fst (m_span m)) (snd (m_span m))))
         else (case m_groups m ! (nat idx - 1) of
                 None \<Rightarrow> Inr None
               | Some sp \<Rightarrow> Inr (Some (slice (m_text m) (fst sp) (snd sp)))))
      else Inl IndexError)"

text \<open>
  Modelled from the spec: the FindAll iteration of the matcher, which the module's
  \<^verbatim>\<open>finditer\<close> generator runs and which is not in the repository.  After each match
  the scan resumes from the end of the matched span, or from start+1 if the match was
  empty.  \<open>lim\<close> is the number of matches still asked for (\<^verbatim>\<open>itertools.islice\<close>),
  \<open>None\<close> when unbounded.  Not returning is the value \<open>None\<close>.
\<close>

definition next_pos :: "mres \<Rightarrow> nat" where
  "next_pos r = (if fst (fst r) = snd (fst r) then fst (fst r) + 1 else snd (fst r))"

partial_function (option) finditer ::
  "matcher \<Rightarrow> string \<Rightarrow> nat \<Rightarrow> nat option \<Rightarrow> pymatch list option" where
  "finditer mt text pos lim =
     (if lim = Some 0 then Some []
      else case mt text pos of
        None \<Rightarrow> Some []
      | Some r \<Rightarrow>
          Option.bind
            (finditer mt text (next_pos r) (map_option (\<lambda>n. n - 1) lim))
            (\<lambda>rest. Some (mk_match text r # rest)))"

declare finditer.simps [code]

text \<open>
  The module's \<^verbatim>\<open>_split(cb, text, maxsplit)\<close>: the text before each match, then what
  the callback gives for the match, and at last the text after the last match taken.
\<close>

fun pieces ::
  "(pymatch \<Rightarrow> exn + string option list) \<Rightarrow> string \<Rightarrow> nat \<Rightarrow> pymatch list
     \<Rightarrow> exn + string option list" where
  "pieces cb text e [] = Inr [Some (drop e text)]"
| "pieces cb text e (m # ms) =
     (case cb m of
        Inl err \<Rightarrow> Inl err
      | Inr items \<Rightarrow>
          (case pieces cb text (snd (m_span m)) ms of
             Inl err \<Rightarrow> Inl err
           | Inr rest \<Rightarrow> Inr (Some (slice text e (fst (m_span m))) # items @ rest)))"

definition split_impl ::
  "matcher \<Rightarrow> (pymatch \<Rightarrow> exn + string option list) \<Rightarrow> string \<Rightarrow> int
     \<Rightarrow> string option list outcome" where
  "split_impl mt cb text maxsplit =
     (if maxsplit < 0 then Some (Inr [Some text])
      else (case finditer mt text 0 (if maxsplit > 0 then Some (nat maxsplit) else None) of
              None \<Rightarrow> None
            | Some ms \<Rightarrow> Some (pieces cb text 0 ms)))"

text \<open>\<^verbatim>\<open>search(pattern, text)\<close>: compile, then the first match of the scan, or \<^verbatim>\<open>None\<close>.\<close>

definition py_search :: "engine \<Rightarrow> string \<Rightarrow> string \<Rightarrow> pymatch option outcome" where
  "py_search compile pattern text =
     (case compile pattern of
        Inl err \<Rightarrow> Some (Inl err)
      | Inr mt \<Rightarrow> Some (Inr (map_option (mk_match text) (mt text 0))))"

text \<open>
  \<^verbatim>\<open>split(pattern, text, maxsplit)\<close>: at most \<open>maxsplit\<close> splits when \<open>maxsplit > 0\<close>; the
  texts of the capture groups of each separator are part of the result, as in Python.
\<close>

definition split_cb :: "pymatch \<Rightarrow> exn + string option list" where
  "split_cb m = Inr (map (map_option (\<lambda>sp. slice (m_text m) (fst sp) (snd sp))) (m_groups m))"

definition py_split :: "engine \<Rightarrow> string \<Rightarrow> string \<Rightarrow> int \<Rightarrow> string option list outcome" where
  "py_split compile pattern text maxsplit =
     (case compile pattern of
        Inl err \<Rightarrow> Some (Inl err)
      | Inr mt \<Rightarrow> split_impl mt split_cb text maxsplit)"

text \<open>
  \<^verbatim>\<open>Match.expand(template)\<close>, which \<^verbatim>\<open>sub\<close> applies to its \<^verbatim>\<open>repl\<close> string at every
  match: a backslash and a digit from 1 to 9 stand for the text of that group (empty
  for a group that did not participate), two backslashes for one.  The other escapes of
  Python templates, and a group number followed by a further digit, are not covered.
\<close>

definition digit_val :: "char \<Rightarrow> nat option" where
  "digit_val c =
     (if (48::nat) \<le> of_char c \<and> of_char c \<le> (57::nat) then Some (of_char c - 48) else None)"

definition group_text :: "pymatch \<Rightarrow> nat \<Rightarrow> exn + string" where
  "group_text m n = (case group m (int n) of Inl err \<Rightarrow> Inl err | Inr v \<Rightarrow> Inr (case v of None \<Rightarrow> [] | Some s \<Rightarrow> s))"

definition starts_with_digit :: "string \<Rightarrow> bool" where
  "starts_with_digit xs = (case xs of [] \<Rightarrow> False | d # _ \<Rightarrow> digit_val d \<noteq> None)"

fun expand :: "string \<Rightarrow> pymatch \<Rightarrow> exn + string" where
  "expand [] m = Inr []"
| "expand (c # cs) m =
     (if c = BSL then
        (case cs of
           [] \<Rightarrow> Inl Unmodelled
         | d # ds \<Rightarrow>
             (if d = BSL then map_sum id ((#) BSL) (expand ds m)
              else (case digit_val d of
                      None \<Rightarrow> Inl Unmodelled
                    | Some 0 \<Rightarrow> Inl Unmodelled
                    | Some (Suc k) \<Rightarrow>
                        (if starts_with_digit ds then Inl Unmodelled
                         else (case group_text m (Suc k) of
                                 Inl err \<Rightarrow> Inl err
                               | Inr g \<Rightarrow> map_sum id ((@) g) (expand ds m))))))
      else map_sum id ((#) c) (expand cs m))"

definition sub_cb :: "string \<Rightarrow> pymatch \<Rightarrow> exn + string option list" where
  "sub_cb repl m = map_sum id (\<lambda>s. [Some s]) (expand repl m)"

definition join :: "string option list \<Rightarrow> string" where
  "join ps = concat (map (\<lambda>p. case p of None \<Rightarrow> [] | Some s \<Rightarrow> s) ps)"

text \<open>\<^verbatim>\<open>sub(pattern, repl, text)\<close> with the default \<^verbatim>\<open>count=0\<close>: every match is replaced.\<close>

definition py_sub :: "engine \<Rightarrow> string \<Rightarrow> string \<Rightarrow> string \<Rightarrow> string outcome" where
  "py_sub compile pattern repl text =
     (case compile pattern of
        Inl err \<Rightarrow> Some (Inl err)
      | Inr mt \<Rightarrow>
          (case split_impl mt (sub_cb repl) text 0 of
             None \<Rightarrow> None
           | Some r \<Rightarrow> Some (map_sum id join r)))"


text \<open>
  What every matcher delivers: a match found from position \<open>pos\<close> starts at or after
  \<open>pos\<close>, does not end before it starts, and lies within the text.
\<close>

definition spans_in_bounds :: "engine \<Rightarrow> bool" where
  "spans_in_bounds eng =
     (\<forall>pattern mt text pos r. eng pattern = Inr mt \<longrightarrow> mt text pos = Some r \<longrightarrow>
        pos \<le> fst (fst r) \<and> fst (fst r) \<le> snd (fst r) \<and> snd (fst r) \<le> length text)"

section \<open>Columns of the host library\<close>

text \<open>
  A row gives a string value to some column names.  A \<^verbatim>\<open>Column\<close> is a lazy expression:
  building it computes nothing, evaluating it on a row gives an outcome.  A user-defined
  function runs when the column is evaluated, never when it is built.  Null values and
  the absence of a Spark session are outside the model.
\<close>

type_synonym row = "string \<rightharpoonup> string"
type_synonym 'a column = "row \<Rightarrow> 'a outcome"

datatype column_or_name = IsColumn "string column" | IsName string
datatype column_or_str = AsColumn "string column" | AsStr string

definition col :: "string \<Rightarrow> string column" where
  "col name row = (case row name of None \<Rightarrow> Some (Inl AnalysisException) | Some v \<Rightarrow> Some (Inr v))"

definition lit :: "string \<Rightarrow> string column" where
  "lit v row = Some (Inr v)"

definition to_col :: "column_or_name \<Rightarrow> string column" where
  "to_col c = (case c of IsColumn c' \<Rightarrow> c' | IsName n \<Rightarrow> col n)"

definition to_lit :: "column_or_str \<Rightarrow> string column" where
  "to_lit c = (case c of AsColumn c' \<Rightarrow> c' | AsStr s \<Rightarrow> lit s)"

fun struct :: "(string \<times> string column) list \<Rightarrow> (string \<rightharpoonup> string) column" where
  "struct [] row = Some (Inr Map.empty)"
| "struct (f # fs) row =
     obind (snd f row) (\<lambda>v. obind (struct fs row) (\<lambda>m. Some (Inr (m(fst f \<mapsto> v)))))"

definition getitem :: "(string \<rightharpoonup> string) \<Rightarrow> string \<Rightarrow> string outcome" where
  "getitem m k = (case m k of None \<Rightarrow> Some (Inl KeyError) | Some v \<Rightarrow> Some (Inr v))"

text \<open>\<^verbatim>\<open>F.udf(f, returnType)(c)\<close>: the column that applies \<open>f\<close> to the value of \<open>c\<close>.\<close>

definition udf :: "('a \<Rightarrow> 'b outcome) \<Rightarrow> 'a column \<Rightarrow> exn + 'b column" where
  "udf f c = Inr (\<lambda>row. obind (c row) f)"

text \<open>\<^verbatim>\<open>try: body  except: handler\<close>, the handler catching every exception.\<close>

definition try_except :: "exn + 'a \<Rightarrow> exn + 'a \<Rightarrow> exn + 'a" where
  "try_except body handler = (case body of Inl err \<Rightarrow> handler | Inr v \<Rightarrow> Inr v)"

text \<open>
  Evaluating on a row the column that a public operation returned.  \<open>empty_row\<close> is
  the row of a table without columns; a literal column has a value on it.
\<close>

definition empty_row :: row where
  "empty_row = Map.empty"

definition evaluate :: "exn + 'a column \<Rightarrow> row \<Rightarrow> 'a outcome" where
  "evaluate r row = (case r of Inl err \<Rightarrow> Some (Inl err) | Inr c \<Rightarrow> c row)"

section \<open>The public operations of regex_utils\<close>

text \<open>
  Each operation takes the engines of the two modules, \<open>re2\<close> and \<open>re\<close>, first.  The
  warning each operation emits has no effect on its result and is left out.
\<close>

definition split_try :: "engine \<Rightarrow> column_or_name \<Rightarrow> string \<Rightarrow> int \<Rightarrow> exn + string option list column" where
  "split_try re2 string pattern limit =
     (let split_partial = (\<lambda>text. py_split re2 pattern text limit)
      in udf (\<lambda>string. split_partial string) (to_col string))"

definition split_except :: "engine \<Rightarrow> column_or_name \<Rightarrow> string \<Rightarrow> int \<Rightarrow> exn + string option list column" where
  "split_except re string pattern limit =
     (let split_partial = (\<lambda>string. py_split re pattern string limit)
      in udf (\<lambda>string. split_partial string) (to_col string))"

definition split ::
  "engine \<Rightarrow> engine \<Rightarrow> column_or_name \<Rightarrow> string \<Rightarrow> int \<Rightarrow> exn + string option list column" where
  "split re2 re string pattern limit =
     (let limit = (if limit \<le> 0 then 0 else limit)
      in try_except (split_try re2 string pattern limit) (split_except re string pattern limit))"

definition replace_row :: "engine \<Rightarrow> (string \<rightharpoonup> string) \<Rightarrow> string outcome" where
  "replace_row eng struct_v =
     obind (getitem struct_v ''pattern'') (\<lambda>pattern.
     obind (getitem struct_v ''replacement'') (\<lambda>repl.
     obind (getitem struct_v ''string'') (\<lambda>text.
       py_sub eng pattern repl text)))"

definition regexp_replace ::
  "engine \<Rightarrow> engine \<Rightarrow> column_or_name \<Rightarrow> column_or_str \<Rightarrow> column_or_str \<Rightarrow> exn + string column" where
  "regexp_replace re2 re string pattern replacement =
     (let string = to_col string;
          pattern = to_lit pattern;
          replacement = to_lit replacement
      in try_except
           (udf (replace_row re2)
              (struct [(''string'', string), (''pattern'', pattern), (''replacement'', replacement)]))
           (udf (replace_row re)
              (struct [(''string'', string), (''pattern'', pattern), (''replacement'', replacement)])))"

text \<open>
  \<^verbatim>\<open>get_group\<close> returns what \<^verbatim>\<open>res.group(idx)\<close> returns, a string or \<^verbatim>\<open>None\<close>, and the
  empty string when the search found nothing.
\<close>

definition get_group :: "engine \<Rightarrow> string \<Rightarrow> int \<Rightarrow> string \<Rightarrow> string option outcome" where
  "get_group eng pattern idx string =
     obind (py_search eng pattern string) (\<lambda>res.
       case res of
         Some m \<Rightarrow> Some (group m idx)
       | None \<Rightarrow> Some (Inr (Some [])))"

definition regexp_extract ::
  "engine \<Rightarrow> engine \<Rightarrow> column_or_name \<Rightarrow> string \<Rightarrow> int \<Rightarrow> exn + string option column" where
  "regexp_extract re2 re string pattern idx =
     try_except (udf (get_group re2 pattern idx) (to_col string))
                (udf (get_group re pattern idx) (to_col string))"

definition is_not_None :: "'a option outcome \<Rightarrow> bool outcome" where
  "is_not_None x = obind x (\<lambda>res. Some (Inr (res \<noteq> None)))"

definition rlike :: "engine \<Rightarrow> engine \<Rightarrow> string column \<Rightarrow> string \<Rightarrow> exn + bool column" where
  "rlike re2 re self other =
     try_except
       (let search_partial = (\<lambda>text. py_search re2 other text)
        in udf (\<lambda>self. is_not_None (search_partial self)) self)
       (let search_partial = (\<lambda>string. py_search re other string)
        in udf (\<lambda>self. is_not_None (search_partial self)) self)"

section \<open>A concrete engine\<close>

text \<open>
  Modelled from the spec: the Pattern Compiler and the matcher of the two modules, which
  are not in the repository.  The fragment has literals, \<^verbatim>\<open>.\<close>, the anchors \<^verbatim>\<open>^\<close> and
  \<^verbatim>\<open>$\<close>, the quantifiers \<^verbatim>\<open>*\<close>, \<^verbatim>\<open>+\<close> and \<^verbatim>\<open>?\<close>, alternation, capture groups, escaped
  punctuation, \<^verbatim>\<open>\xHH\<close> and the backreferences \<^verbatim>\<open>\1\<close> to \<^verbatim>\<open>\9\<close>; every other
  construct gives \<open>Unmodelled\<close>.  Matching is leftmost-first: \<open>ms r text i c\<close> lists the
  ends and captures of the matches of \<open>r\<close> that start at \<open>i\<close>, the preferred one first.
  The linear-time compiler rejects a pattern with a backreference; the backtracking
  one accepts it, and its \<^verbatim>\<open>$\<close> also matches before a final newline.  In the case of
  \<open>Star\<close> a further iteration starts only where the last one consumed a character and
  ended within the text, which every iteration does; the test makes the recursion
  well-founded.
\<close>

datatype regex =
    Eps
  | Lit char
  | Dot
  | Bol
  | Eol
  | EolNl
  | Cat regex regex
  | Alt regex regex
  | Star regex
  | Group nat regex
  | Backref nat

datatype frame = Frame (alts: "regex list") (cur: "regex list") (gidx: nat)

definition seq :: "regex list \<Rightarrow> regex" where
  "seq atoms = foldr Cat atoms Eps"

definition close_frame :: "frame \<Rightarrow> regex" where
  "close_frame f = foldl (\<lambda>acc a. Alt a acc) (seq (rev (cur f))) (alts f)"

definition push :: "regex \<Rightarrow> frame \<Rightarrow> frame" where
  "push a f = Frame (alts f) (a # cur f) (gidx f)"

definition is_word :: "char \<Rightarrow> bool" where
  "is_word c =
     (let n = (of_char c :: nat)
      in (48 \<le> n \<and> n \<le> 57) \<or> (65 \<le> n \<and> n \<le> 90) \<or> (97 \<le> n \<and> n \<le> 122) \<or> n = 95)"

definition hex_val :: "char \<Rightarrow> nat option" where
  "hex_val c =
     (let n = (of_char c :: nat)
      in if 48 \<le> n \<and> n \<le> 57 then Some (n - 48)
         else if 65 \<le> n \<and> n \<le> 70 then Some (n - 55)
         else if 97 \<le> n \<and> n \<le> 102 then Some (n - 87)
         else None)"

definition quantify :: "(regex \<Rightarrow> regex) \<Rightarrow> bool \<Rightarrow> frame \<Rightarrow> exn + frame" where
  "quantify mk q f =
     (case cur f of
        [] \<Rightarrow> Inl PatternSyntaxError
      | a # as \<Rightarrow> if q then Inr (Frame (alts f) (mk a # as) (gidx f)) else Inl Unmodelled)"

fun parse :: "bool \<Rightarrow> frame list \<Rightarrow> nat \<Rightarrow> bool \<Rightarrow> string \<Rightarrow> exn + regex \<times> nat" where
  "parse nl stack ng q [] =
     (case stack of
        [f] \<Rightarrow> Inr (close_frame f, ng)
      | _ \<Rightarrow> Inl PatternSyntaxError)"
| "parse nl stack ng q (c # cs) =
     (case stack of
        [] \<Rightarrow> Inl PatternSyntaxError
      | f # fs \<Rightarrow>
          if c = BSL then
            (case cs of
               [] \<Rightarrow> Inl PatternSyntaxError
             | d # ds \<Rightarrow>
                 if d = CHR ''x'' then
                   (case ds of
                      h1 # h2 # es \<Rightarrow>
                        (case hex_val h1 of
                           None \<Rightarrow> Inl PatternSyntaxError
                         | Some a \<Rightarrow>
                             (case hex_val h2 of
                                None \<Rightarrow> Inl PatternSyntaxError
                              | Some b \<Rightarrow> parse nl (push (Lit (char_of (16 * a + b))) f # fs) ng True es))
                    | _ \<Rightarrow> Inl PatternSyntaxError)
                 else if is_word d then
                   (case digit_val d of
                      Some (Suc k) \<Rightarrow> parse nl (push (Backref (Suc k)) f # fs) ng True ds
                    | _ \<Rightarrow> Inl Unmodelled)
                 else parse nl (push (Lit d) f # fs) ng True ds)
          else if c = CHR ''('' then
            (if take 1 cs = ''?'' then Inl Unmodelled
             else parse nl (Frame [] [] (Suc ng) # f # fs) (Suc ng) False cs)
          else if c = CHR '')'' then
            (case fs of
               [] \<Rightarrow> Inl PatternSyntaxError
             | p # ps \<Rightarrow> parse nl (push (Group (gidx f) (close_frame f)) p # ps) ng True cs)
          else if c = CHR ''|'' then
            parse nl (Frame (seq (rev (cur f)) # alts f) [] (gidx f) # fs) ng False cs
          else if c = CHR ''*'' then
            (case quantify Star q f of
               Inl err \<Rightarrow> Inl err
             | Inr f' \<Rightarrow> parse nl (f' # fs) ng False cs)
          else if c = CHR ''+'' then
            (case quantify (\<lambda>a. Cat a (Star a)) q f of
               Inl err \<Rightarrow> Inl err
             | Inr f' \<Rightarrow> parse nl (f' # fs) ng False cs)
          else if c = CHR ''?'' then
            (case quantify (\<lambda>a. Alt a Eps) q f of
               Inl err \<Rightarrow> Inl err
             | Inr f' \<Rightarrow> parse nl (f' # fs) ng False cs)
          else if c = CHR ''.'' then parse nl (push Dot f # fs) ng True cs
          else if c = CHR ''^'' then parse nl (push Bol f # fs) ng True cs
          else if c = CHR ''$'' then parse nl (push (if nl then EolNl else Eol) f # fs) ng True cs
          else if c = CHR ''['' then Inl Unmodelled
          else if c = CHR ''{'' then Inl Unmodelled
          else parse nl (push (Lit c) f # fs) ng True cs)"

function ms :: "regex \<Rightarrow> string \<Rightarrow> nat \<Rightarrow> span option list \<Rightarrow> (nat \<times> span option list) list" where
  "ms Eps text i c = [(i, c)]"
| "ms (Lit ch) text i c = (if i < length text \<and> text ! i = ch then [(Suc i, c)] else [])"
| "ms Dot text i c = (if i < length text \<and> text ! i \<noteq> CHR 0x0A then [(Suc i, c)] else [])"
| "ms Bol text i c = (if i = 0 then [(i, c)] else [])"
| "ms Eol text i c = (if i = length text then [(i, c)] else [])"
| "ms EolNl text i c =
     (if i = length text \<or> (Suc i = length text \<and> text ! i = CHR 0x0A) then [(i, c)] else [])"
| "ms (Cat a b) text i c = concat (map (\<lambda>p. ms b text (fst p) (snd p)) (ms a text i c))"
| "ms (Alt a b) text i c = ms a text i c @ ms b text i c"
| "ms (Star a) text i c =
     concat (map (\<lambda>p. if i < fst p \<and> fst p \<le> length text then ms (Star a) text (fst p) (snd p) else [])
                 (ms a text i c))
     @ [(i, c)]"
| "ms (Group n a) text i c = map (\<lambda>p. (fst p, (snd p)[n - 1 := Some (i, fst p)])) (ms a text i c)"
| "ms (Backref n) text i c =
     (if 0 < n \<and> n \<le> length c then
        (case c ! (n - 1) of
           None \<Rightarrow> []
         | Some sp \<Rightarrow>
             (let w = slice text (fst sp) (snd sp)
              in if take (length w) (drop i text) = w then [(i + length w, c)] else []))
      else [])"
  by pat_completeness auto
termination
  by (relation "inv_image (less_than <*lex*> less_than) (\<lambda>(r, text, i, c). (size r, length text - i))") auto

fun first_match :: "(nat \<Rightarrow> 'a option) \<Rightarrow> nat list \<Rightarrow> 'a option" where
  "first_match f [] = None"
| "first_match f (i # is) = (case f i of Some m \<Rightarrow> Some m | None \<Rightarrow> first_match f is)"

definition match_at :: "regex \<Rightarrow> nat \<Rightarrow> string \<Rightarrow> nat \<Rightarrow> mres option" where
  "match_at r ng text i =
     (case ms r text i (replicate ng None) of
        [] \<Rightarrow> None
      | p # _ \<Rightarrow> Some ((i, fst p), snd p))"

definition leftmost :: "regex \<Rightarrow> nat \<Rightarrow> matcher" where
  "leftmost r ng text pos = first_match (match_at r ng text) [pos..<Suc (length text)]"

fun has_backref :: "regex \<Rightarrow> bool" where
  "has_backref (Backref n) = True"
| "has_backref (Cat a b) = (has_backref a \<or> has_backref b)"
| "has_backref (Alt a b) = (has_backref a \<or> has_backref b)"
| "has_backref (Star a) = has_backref a"
| "has_backref (Group n a) = has_backref a"
| "has_backref r = False"

definition RE2 :: engine where
  "RE2 pattern =
     (case parse False [Frame [] [] 0] 0 False pattern of
        Inl err \<Rightarrow> Inl err
      | Inr (r, ng) \<Rightarrow> if has_backref r then Inl UnsupportedConstruct else Inr (leftmost r ng))"

definition RE :: engine where
  "RE pattern =
     (case parse True [Frame [] [] 0] 0 False pattern of
        Inl err \<Rightarrow> Inl err
      | Inr (r, ng) \<Rightarrow> Inr (leftmost r ng))"

text \<open>
  Modelled from the spec: escaping a literal, which the modules do and which is not in
  the repository.  \<^verbatim>\<open>re2.escape\<close> puts a backslash before every character that is not
  a letter, a digit, the underscore or a byte of 128 and more, and writes the zero
  byte as \<^verbatim>\<open>\x00\<close>; \<^verbatim>\<open>re.escape\<close> puts a backslash before the special characters only.
\<close>

definition quote_char :: "char \<Rightarrow> string" where
  "quote_char c =
     (if is_word c \<or> (128::nat) \<le> of_char c then [c]
      else if c = CHR 0x00 then BSL # ''x00''
      else [BSL, c])"

definition re2_escape :: "string \<Rightarrow> string" where
  "re2_escape l = concat (map quote_char l)"

definition re_special :: "char \<Rightarrow> bool" where
  "re_special c =
     (c \<in> set (''()[]{}?*+-|^$.&~# '' @ [BSL, CHR 0x09, CHR 0x0A, CHR 0x0D, CHR 0x0B, CHR 0x0C]))"

definition re_escape :: "string \<Rightarrow> string" where
  "re_escape l = concat (map (\<lambda>c. if re_special c then [BSL, c] else [c]) l)"

section \<open>The prefix and suffix tests\<close>

definition startswith_row ::
  "engine \<Rightarrow> (string \<Rightarrow> string) \<Rightarrow> (string \<rightharpoonup> string) \<Rightarrow> bool outcome" where
  "startswith_row eng escape struct_v =
     obind (getitem struct_v ''other'') (\<lambda>other.
     obind (getitem struct_v ''self'') (\<lambda>self.
       is_not_None (py_search eng (''^'' @ escape other) self)))"

definition startswith ::
  "engine \<Rightarrow> engine \<Rightarrow> string column \<Rightarrow> column_or_str \<Rightarrow> exn + bool column" where
  "startswith re2 re self other =
     (let other = to_lit other
      in try_except
           (udf (startswith_row re2 re2_escape) (struct [(''self'', self), (''other'', other)]))
           (udf (startswith_row re re_escape) (struct [(''self'', self), (''other'', other)])))"

definition endswith_row ::
  "engine \<Rightarrow> (string \<Rightarrow> string) \<Rightarrow> (string \<rightharpoonup> string) \<Rightarrow> bool outcome" where
  "endswith_row eng escape struct_v =
     obind (getitem struct_v ''other'') (\<lambda>other.
     obind (getitem struct_v ''self'') (\<lambda>self.
       is_not_None (py_search eng (escape other @ ''$'') self)))"

definition endswith ::
  "engine \<Rightarrow> engine \<Rightarrow> string column \<Rightarrow> column_or_str \<Rightarrow> exn + bool column" where
  "endswith re2 re self other =
     (let other = to_lit other
      in try_except
           (udf (endswith_row re2 re2_escape) (struct [(''self'', self), (''other'', other)]))
           (udf (endswith_row re re_escape) (struct [(''self'', self), (''other'', other)])))"

section \<open>Importing the module\<close>

text \<open>
  The last six statements of the module assign its functions to names of the host
  library.  The state is the binding of those six names: to the host's own
  implementation or to the function of this module.
\<close>

datatype impl = SparkBuiltin | RegexUtils

record namespace =
  F_split :: impl
  F_regexp_replace :: impl
  F_regexp_extract :: impl
  Column_rlike :: impl
  Column_startswith :: impl
  Column_endswith :: impl

definition pyspark :: namespace where
  "pyspark =
     \<lparr>F_split = SparkBuiltin, F_regexp_replace = SparkBuiltin, F_regexp_extract = SparkBuiltin,
      Column_rlike = SparkBuiltin, Column_startswith = SparkBuiltin,
      Column_endswith = SparkBuiltin\<rparr>"

definition import_regex_utils :: "namespace \<Rightarrow> namespace" where
  "import_regex_utils ns =
     ns\<lparr>F_split := RegexUtils, F_regexp_replace := RegexUtils, F_regexp_extract := RegexUtils,
        Column_rlike := RegexUtils, Column_startswith := RegexUtils,
        Column_endswith := RegexUtils\<rparr>"

section \<open>Evaluating the operations on a literal column\<close>

lemma try_except_udf: "try_except (udf f c) h = udf f c"
  by (simp add: try_except_def udf_def)

lemma obind_simps [simp]:
  "obind None f = None"
  "obind (Some (Inl e)) f = Some (Inl e)"
  "obind (Some (Inr v)) f = f v"
  by (simp_all add: obind_def)

lemma evaluate_udf: "evaluate (udf f c) row = obind (c row) f"
  by (simp add: evaluate_def udf_def)

lemma eval_split_lit:
  "evaluate (split re2 re (IsColumn (lit s)) pattern limit) row =
     py_split re2 pattern s (if limit \<le> 0 then 0 else limit)"
  by (simp add: split_def split_try_def Let_def try_except_udf evaluate_udf to_col_def lit_def)

lemma eval_rlike_lit:
  "evaluate (rlike re2 re (lit s) pattern) row = is_not_None (py_search re2 pattern s)"
  by (simp add: rlike_def Let_def try_except_udf evaluate_udf lit_def)

lemma eval_regexp_extract_lit:
  "evaluate (regexp_extract re2 re (IsColumn (lit s)) pattern idx) row = get_group re2 pattern idx s"
  by (simp add: regexp_extract_def try_except_udf evaluate_udf to_col_def lit_def)

lemma eval_regexp_replace_lit:
  "evaluate (regexp_replace re2 re (IsColumn (lit s)) (AsStr pattern) (AsStr repl)) row =
     py_sub re2 pattern repl s"
  by (simp add: regexp_replace_def Let_def try_except_udf evaluate_udf to_col_def to_lit_def
      lit_def replace_row_def getitem_def)

lemma eval_startswith_lit:
  "evaluate (startswith re2 re (lit s) (AsStr l)) row =
     is_not_None (py_search re2 (''^'' @ re2_escape l) s)"
  by (simp add: startswith_def Let_def try_except_udf evaluate_udf to_lit_def
      lit_def startswith_row_def getitem_def)

lemma eval_endswith_lit:
  "evaluate (endswith re2 re (lit s) (AsStr l)) row =
     is_not_None (py_search re2 (re2_escape l @ ''$'') s)"
  by (simp add: endswith_def Let_def try_except_udf evaluate_udf to_lit_def
      lit_def endswith_row_def getitem_def)

section \<open>The try blocks build columns only\<close>


section \<open>Importing the module rebinds the host's names\<close>

text \<open>
  Claim C10, as stated, fails: importing the module overwrites \<^verbatim>\<open>F.split\<close> of the host
  library, with no registration step.
\<close>

theorem import_overwrites_split:
  "F_split (import_regex_utils pyspark) \<noteq> F_split pyspark"
  by (simp add: import_regex_utils_def pyspark_def)

text \<open>
  Claim C10, amended.  Importing the module binds each of the six names of the host
  library (\<^verbatim>\<open>F.split\<close>, \<^verbatim>\<open>F.regexp_replace\<close>, \<^verbatim>\<open>F.regexp_extract\<close>, \<^verbatim>\<open>Column.rlike\<close>,
  \<^verbatim>\<open>Column.startswith\<close>, \<^verbatim>\<open>Column.endswith\<close>) to the function of this module, whatever
  the name was bound to before.
\<close>

theorem import_rebinds_names:
  "F_split (import_regex_utils ns) = RegexUtils
   \<and> F_regexp_replace (import_regex_utils ns) = RegexUtils
   \<and> F_regexp_extract (import_regex_utils ns) = RegexUtils
   \<and> Column_rlike (import_regex_utils ns) = RegexUtils
   \<and> Column_startswith (import_regex_utils ns) = RegexUtils
   \<and> Column_endswith (import_regex_utils ns) = RegexUtils"
  by (simp add: import_regex_utils_def)

section \<open>The concrete engine keeps its matches within the text\<close>

declare ms.simps(9) [simp del]

lemma take_eq_length: "take (length w) xs = w \<Longrightarrow> length w \<le> length xs"
proof -
  assume "take (length w) xs = w"
  then have "length (take (length w) xs) = length w" by simp
  then show ?thesis by simp
qed

lemma ms_Backref_elem:
  assumes "p \<in> set (ms (Backref n) t i c)"
  shows "\<exists>sp.
      take (length (slice t (fst sp) (snd sp))) (drop i t) = slice t (fst sp) (snd sp)
      \<and> p = (i + length (slice t (fst sp) (snd sp)), c)"
proof (cases "0 < n \<and> n \<le> length c")
  case False
  with assms show ?thesis by simp
next
  case inrange: True
  show ?thesis
  proof (cases "c ! (n - 1)")
    case None
    with assms inrange show ?thesis by simp
  next
    case (Some sp)
    with assms inrange show ?thesis by (auto simp: Let_def)
  qed
qed


lemma ms_bounds:
  "i \<le> length t \<Longrightarrow> p \<in> set (ms r t i c) \<Longrightarrow> i \<le> fst p \<and> fst p \<le> length t"
proof (induction r t i c arbitrary: p rule: ms.induct)
  case (7 a b t i c)
  from "7.prems" obtain q where q: "q \<in> set (ms a t i c)" and p: "p \<in> set (ms b t (fst q) (snd q))"
    by auto
  from "7.IH"(1) [OF "7.prems"(1) q] have "i \<le> fst q" "fst q \<le> length t" by auto
  with "7.IH"(2) [OF q _ p] show ?case by auto
next
  case (9 a t i c)
  show ?case
  proof (cases "p = (i, c)")
    case True
    with "9.prems"(1) show ?thesis by simp
  next
    case False
    have "ms (Star a) t i c =
        concat (map (\<lambda>p. if i < fst p \<and> fst p \<le> length t then ms (Star a) t (fst p) (snd p) else [])
                    (ms a t i c)) @ [(i, c)]"
      by (rule ms.simps(9))
    with False "9.prems"(2) obtain q where q: "q \<in> set (ms a t i c)"
      and p: "p \<in> set (if i < fst q \<and> fst q \<le> length t then ms (Star a) t (fst q) (snd q) else [])"
      by auto
    then have g: "i < fst q" "fst q \<le> length t" and p': "p \<in> set (ms (Star a) t (fst q) (snd q))"
      by (simp_all split: if_splits)
    from "9.IH"(2) [OF q _ g(2) p'] g show ?thesis by simp
  qed
next
  case (11 n t i c)
  from ms_Backref_elem [OF "11.prems"(2)] obtain sp where
    w: "take (length (slice t (fst sp) (snd sp))) (drop i t) = slice t (fst sp) (snd sp)"
    and p: "p = (i + length (slice t (fst sp) (snd sp)), c)"
    by blast
  from take_eq_length [OF w] "11.prems"(1) p show ?case by simp
next
  case (8 a b t i c)
  from "8.prems"(2) have "p \<in> set (ms a t i c) \<or> p \<in> set (ms b t i c)" by simp
  with "8.IH" "8.prems"(1) show ?case by blast
next
  case (10 n a t i c)
  from "10.prems"(2) obtain q where "q \<in> set (ms a t i c)" "fst p = fst q" by auto
  with "10.IH" "10.prems"(1) show ?case by simp
qed (simp_all split: if_splits)

lemma first_match_Some:
  "first_match f is = Some m \<Longrightarrow> \<exists>i \<in> set is. f i = Some m"
  by (induction "is") (auto split: option.splits)

lemma leftmost_bounds:
  assumes "leftmost r ng text pos = Some m"
  shows "pos \<le> fst (fst m) \<and> fst (fst m) \<le> snd (fst m) \<and> snd (fst m) \<le> length text"
proof -
  from assms obtain i where i: "pos \<le> i" "i \<le> length text" and m: "match_at r ng text i = Some m"
    unfolding leftmost_def by (fastforce dest: first_match_Some)
  from m obtain p ps where ps: "ms r text i (replicate ng None) = p # ps" and "m = ((i, fst p), snd p)"
    by (auto simp: match_at_def split: list.splits)
  moreover from ps have "p \<in> set (ms r text i (replicate ng None))" by simp
  from ms_bounds [OF i(2) this] have "i \<le> fst p" "fst p \<le> length text" by auto
  ultimately show ?thesis using i by simp
qed

lemma RE2_leftmost: "RE2 pattern = Inr mt \<Longrightarrow> \<exists>r ng. mt = leftmost r ng"
  by (auto simp: RE2_def split: sum.splits if_splits prod.splits)

lemma RE_leftmost: "RE pattern = Inr mt \<Longrightarrow> \<exists>r ng. mt = leftmost r ng"
  by (auto simp: RE_def split: sum.splits prod.splits)

lemma RE2_in_bounds: "spans_in_bounds RE2"
  unfolding spans_in_bounds_def using RE2_leftmost leftmost_bounds by blast

lemma RE_in_bounds: "spans_in_bounds RE"
  unfolding spans_in_bounds_def using RE_leftmost leftmost_bounds by blast


section \<open>Splitting terminates\<close>

lemma finditer_returns:
  assumes bounds: "\<And>pos r. mt text pos = Some r \<Longrightarrow>
      pos \<le> fst (fst r) \<and> fst (fst r) \<le> snd (fst r) \<and> snd (fst r) \<le> length text"
  shows "\<exists>ms. finditer mt text pos lim = Some ms"
proof (induction "Suc (length text) - pos" arbitrary: pos lim rule: less_induct)
  case less
  show ?case
  proof (cases "lim = Some 0")
    case True
    then show ?thesis by (simp add: finditer.simps)
  next
    case notzero: False
    show ?thesis
    proof (cases "mt text pos")
      case None
      with notzero show ?thesis by (simp add: finditer.simps)
    next
      case (Some r)
      from bounds [OF Some] have "pos < next_pos r" "pos \<le> length text"
        by (auto simp: next_pos_def)
      then have "Suc (length text) - next_pos r < Suc (length text) - pos" by arith
      from less [OF this] obtain ms where
        "finditer mt text (next_pos r) (map_option (\<lambda>n. n - 1) lim) = Some ms" by blast
      with notzero Some show ?thesis by (subst finditer.simps) simp
    qed
  qed
qed

lemma split_impl_returns:
  assumes "\<And>pos r. mt text pos = Some r \<Longrightarrow>
      pos \<le> fst (fst r) \<and> fst (fst r) \<le> snd (fst r) \<and> snd (fst r) \<le> length text"
  shows "\<exists>r. split_impl mt cb text maxsplit = Some r"
proof -
  from finditer_returns [OF assms]
  obtain ms where "finditer mt text 0 (if maxsplit > 0 then Some (nat maxsplit) else None) = Some ms"
    by blast
  then show ?thesis by (simp add: split_impl_def)
qed

text \<open>
  Claim C8.  With an engine whose matches lie within the text from the scan position on
  (every matcher does that), evaluating \<^verbatim>\<open>split\<close> on a row returns, for every input
  string, pattern and limit: a result or an exception, never a loop.  Each step of the
  scan moves the position forward by at least one character, also after an empty match.
\<close>

theorem split_terminates:
  assumes "spans_in_bounds re2"
  shows "(\<exists>r. evaluate (split re2 re (IsColumn (lit s)) pattern limit) row = Some r)
       \<and> (\<forall>mt text pos r. re2 pattern = Inr mt \<and> mt text pos = Some r \<longrightarrow> pos < next_pos r)"
proof
  show "\<exists>r. evaluate (split re2 re (IsColumn (lit s)) pattern limit) row = Some r"
  proof (cases "re2 pattern")
    case (Inl e)
    then show ?thesis by (simp add: eval_split_lit py_split_def)
  next
    case (Inr mt)
    have "\<exists>r. split_impl mt split_cb s (if limit \<le> 0 then 0 else limit) = Some r"
    proof (rule split_impl_returns)
      fix pos r
      assume "mt s pos = Some r"
      with assms Inr show "pos \<le> fst (fst r) \<and> fst (fst r) \<le> snd (fst r) \<and> snd (fst r) \<le> length s"
        unfolding spans_in_bounds_def by blast
    qed
    with Inr show ?thesis by (simp add: eval_split_lit py_split_def)
  qed
next
  show "\<forall>mt text pos r. re2 pattern = Inr mt \<and> mt text pos = Some r \<longrightarrow> pos < next_pos r"
  proof (intro allI impI)
    fix mt t pos r
    assume "re2 pattern = Inr mt \<and> mt t pos = Some r"
    with assms have "pos \<le> fst (fst r) \<and> fst (fst r) \<le> snd (fst r)"
      unfolding spans_in_bounds_def by blast
    then show "pos < next_pos r" by (auto simp: next_pos_def)
  qed
qed

text \<open>
  Witness for C8: the concrete engine has its matches in bounds, and the pattern
  \<^verbatim>\<open>x*\<close>, which matches the empty string at every position of \<^verbatim>\<open>abc\<close>, is split in
  finitely many steps.
\<close>

theorem split_terminates_witness:
  "spans_in_bounds RE2
   \<and> evaluate (split RE2 RE (IsColumn (lit ''abc'')) ''x*'' (- 1)) empty_row
       = Some (Inr [Some [], Some ''a'', Some ''b'', Some ''c'', Some []])
   \<and> (\<exists>r. evaluate (split RE2 RE (IsColumn (lit ''abc'')) ''x*'' (- 1)) empty_row = Some r)"
proof -
  have "evaluate (split RE2 RE (IsColumn (lit ''abc'')) ''x*'' (- 1)) empty_row
       = Some (Inr [Some [], Some ''a'', Some ''b'', Some ''c'', Some []])"
    unfolding eval_split_lit by code_simp
  with split_terminates [OF RE2_in_bounds, of RE "''abc''" "''x*''" "- 1" empty_row] RE2_in_bounds
  show ?thesis by blast
qed


section \<open>Replacing with a pattern that matches nothing\<close>

lemma is_not_None_False:
  "is_not_None x = Some (Inr False) \<Longrightarrow> x = Some (Inr None)"
  by (auto simp: is_not_None_def obind_def split: option.splits sum.splits)

lemma py_search_None:
  "py_search eng pattern text = Some (Inr None) \<Longrightarrow> \<exists>mt. eng pattern = Inr mt \<and> mt text 0 = None"
  by (auto simp: py_search_def split: sum.splits)

lemma py_sub_no_match:
  assumes "eng pattern = Inr mt" "mt text 0 = None"
  shows "py_sub eng pattern repl text = Some (Inr text)"
  using assms by (simp add: py_sub_def split_impl_def finditer.simps join_def)

text \<open>
  Claim C7.  If the pattern has no match anywhere in \<open>s\<close> (\<^verbatim>\<open>rlike\<close> evaluates to false
  on it), then \<^verbatim>\<open>regexp_replace\<close> returns \<open>s\<close> unchanged, whatever the replacement.
\<close>

theorem replace_no_match_unchanged:
  assumes "evaluate (rlike re2 re (lit s) pattern) row = Some (Inr False)"
  shows "evaluate (regexp_replace re2 re (IsColumn (lit s)) (AsStr pattern) (AsStr repl)) row
           = Some (Inr s)"
proof -
  from assms have "py_search re2 pattern s = Some (Inr None)"
    by (simp add: eval_rlike_lit is_not_None_False)
  then obtain mt where "re2 pattern = Inr mt" "mt s 0 = None"
    using py_search_None by blast
  then show ?thesis by (simp add: eval_regexp_replace_lit py_sub_no_match)
qed

text \<open>Witness for C7: \<^verbatim>\<open>x+\<close> has no match in \<^verbatim>\<open>abc\<close>.\<close>

theorem replace_no_match_unchanged_witness:
  "evaluate (rlike RE2 RE (lit ''abc'') ''x+'') empty_row = Some (Inr False)
   \<and> evaluate (regexp_replace RE2 RE (IsColumn (lit ''abc'')) (AsStr ''x+'') (AsStr ''y'')) empty_row
       = Some (Inr ''abc'')"
proof -
  have h: "evaluate (rlike RE2 RE (lit ''abc'') ''x+'') empty_row = Some (Inr False)"
    unfolding eval_rlike_lit by code_simp
  from replace_no_match_unchanged [OF h] h show ?thesis by simp
qed

section \<open>The replacement is a template\<close>









section \<open>Extracting a group\<close>

lemma get_group_no_match:
  "py_search eng pattern s = Some (Inr None) \<Longrightarrow> get_group eng pattern idx s = Some (Inr (Some []))"
  by (simp add: get_group_def)

lemma get_group_out_of_range:
  assumes "eng pattern = Inr mt" "mt s 0 = Some r"
    and "idx < 0 \<or> int (length (snd r)) < idx"
  shows "get_group eng pattern idx s = Some (Inl IndexError)"
  using assms by (auto simp: get_group_def py_search_def group_def mk_match_def)

text \<open>
  Claim C3, as stated, fails: with the pattern \<^verbatim>\<open>(a)b\<close>, which has one group, and the
  index 2, extracting from \<^verbatim>\<open>ab\<close> raises \<^verbatim>\<open>IndexError\<close>.
\<close>

theorem extract_out_of_range_raises:
  "evaluate (regexp_extract RE2 RE (IsColumn (lit ''ab'')) ''(a)b'' 2) empty_row = Some (Inl IndexError)"
  unfolding eval_regexp_extract_lit by code_simp

text \<open>
  Claim C3, amended.  When the pattern does not match \<open>s\<close>, \<^verbatim>\<open>regexp_extract\<close> returns
  the empty string, whatever the index.  When the pattern matches \<open>s\<close> and the index is
  negative or larger than the number of groups of the pattern, the evaluation raises
  \<^verbatim>\<open>IndexError\<close>.
\<close>

theorem extract_no_match_or_out_of_range:
  "(evaluate (rlike re2 re (lit s) pattern) row = Some (Inr False) \<longrightarrow>
      evaluate (regexp_extract re2 re (IsColumn (lit s)) pattern idx) row = Some (Inr (Some [])))
   \<and> (re2 pattern = Inr mt \<and> mt s 0 = Some r \<and> (idx < 0 \<or> int (length (snd r)) < idx) \<longrightarrow>
      evaluate (regexp_extract re2 re (IsColumn (lit s)) pattern idx) row = Some (Inl IndexError))"
  by (auto simp: eval_rlike_lit eval_regexp_extract_lit dest!: is_not_None_False
      intro: get_group_no_match get_group_out_of_range)

text \<open>
  Witness for C3: \<^verbatim>\<open>(a)b\<close> does not match \<^verbatim>\<open>xyz\<close>; it matches \<^verbatim>\<open>cab\<close>, and the index
  \<open>-1\<close> is out of range.
\<close>

theorem extract_no_match_or_out_of_range_witness:
  "evaluate (rlike RE2 RE (lit ''xyz'') ''(a)b'') empty_row = Some (Inr False)
   \<and> evaluate (regexp_extract RE2 RE (IsColumn (lit ''xyz'')) ''(a)b'' 5) empty_row = Some (Inr (Some []))
   \<and> RE2 ''(a)b'' = Inr (leftmost (Cat (Group 1 (Cat (Lit CHR ''a'') Eps)) (Cat (Lit CHR ''b'') Eps)) 1)
   \<and> leftmost (Cat (Group 1 (Cat (Lit CHR ''a'') Eps)) (Cat (Lit CHR ''b'') Eps)) 1 ''cab'' 0
       = Some ((1, 3), [Some (1, 2)])
   \<and> evaluate (regexp_extract RE2 RE (IsColumn (lit ''cab'')) ''(a)b'' (- 1)) empty_row
       = Some (Inl IndexError)"
proof -
  have h1: "evaluate (rlike RE2 RE (lit ''xyz'') ''(a)b'') empty_row = Some (Inr False)"
    unfolding eval_rlike_lit by code_simp
  have h2: "RE2 ''(a)b'' = Inr (leftmost (Cat (Group 1 (Cat (Lit CHR ''a'') Eps)) (Cat (Lit CHR ''b'') Eps)) 1)"
    by (simp add: RE2_def BSL_def push_def close_frame_def seq_def)
  have h3: "leftmost (Cat (Group 1 (Cat (Lit CHR ''a'') Eps)) (Cat (Lit CHR ''b'') Eps)) 1 ''cab'' 0
       = Some ((1, 3), [Some (1, 2)])"
    by code_simp
  from extract_no_match_or_out_of_range [where ?re2.0 = RE2 and re = RE and s = "''xyz''"
      and pattern = "''(a)b''" and row = empty_row and idx = 5]
    extract_no_match_or_out_of_range [where ?re2.0 = RE2 and re = RE and s = "''cab''"
      and pattern = "''(a)b''" and row = empty_row and idx = "- 1"
      and mt = "leftmost (Cat (Group 1 (Cat (Lit CHR ''a'') Eps)) (Cat (Lit CHR ''b'') Eps)) 1"
      and r = "((1, 3), [Some (1, 2)])"]
    h1 h2 h3
  show ?thesis by simp
qed

text \<open>
  A group that did not participate in the match gives Python's \<^verbatim>\<open>None\<close>, a null of the
  column, and not the empty string that the docstring of \<^verbatim>\<open>regexp_extract\<close> promises.
\<close>

lemma extract_nonparticipating:
  "evaluate (regexp_extract RE2 RE (IsColumn (lit ''b'')) ''(a)|b'' 1) empty_row = Some (Inr None)"
  unfolding eval_regexp_extract_lit by code_simp


section \<open>Patterns the linear-time engine rejects\<close>

text \<open>
  Claim C1 does not hold of the code.  The linear-time engine rejects the pattern
  \<^verbatim>\<open>(a)\1\<close>; the row function of every operation calls that engine when the column is
  evaluated, outside any \<^verbatim>\<open>try\<close> block, so the evaluation on \<^verbatim>\<open>aa\<close> raises.  The
  backtracking engine, which is never called, finds a match.
\<close>

theorem unsupported_pattern_raises:
  "evaluate (rlike RE2 RE (lit ''aa'') (''(a)'' @ BSL # ''1'')) empty_row
     = Some (Inl UnsupportedConstruct)
   \<and> evaluate (split RE2 RE (IsColumn (lit ''aa'')) (''(a)'' @ BSL # ''1'') (- 1)) empty_row
     = Some (Inl UnsupportedConstruct)
   \<and> evaluate (regexp_extract RE2 RE (IsColumn (lit ''aa'')) (''(a)'' @ BSL # ''1'') 0) empty_row
     = Some (Inl UnsupportedConstruct)
   \<and> evaluate (regexp_replace RE2 RE (IsColumn (lit ''aa'')) (AsStr (''(a)'' @ BSL # ''1''))
        (AsStr ''x'')) empty_row
     = Some (Inl UnsupportedConstruct)
   \<and> is_not_None (py_search RE (''(a)'' @ BSL # ''1'') ''aa'') = Some (Inr True)"
  unfolding eval_rlike_lit eval_split_lit eval_regexp_extract_lit eval_regexp_replace_lit
  by code_simp


section \<open>The limit of split\<close>

text \<open>
  Claim C2 does not hold of the code.  The limit is passed on as \<^verbatim>\<open>maxsplit\<close>, the number
  of splits, not the number of elements: with the limit 2 the string \<^verbatim>\<open>a,b,c\<close> is
  split into three elements.
\<close>

theorem split_limit_two_gives_three:
  "evaluate (split RE2 RE (IsColumn (lit ''a,b,c'')) '','' 2) empty_row
     = Some (Inr [Some ''a'', Some ''b'', Some ''c''])"
  unfolding eval_split_lit by code_simp

section \<open>Escaped literals: the prefix and the suffix test\<close>

text \<open>
  The compiler reads the escape of a literal as the sequence of its characters, each a
  literal, and the matcher matches such a sequence exactly where the text has it.
\<close>

lemma plain_char:
  assumes "is_word c \<or> (128::nat) \<le> of_char c"
  shows "c \<noteq> BSL" "c \<noteq> CHR ''(''" "c \<noteq> CHR '')''" "c \<noteq> CHR ''|''" "c \<noteq> CHR ''*''"
    "c \<noteq> CHR ''+''" "c \<noteq> CHR ''?''" "c \<noteq> CHR ''.''" "c \<noteq> CHR ''^''" "c \<noteq> CHR ''$''"
    "c \<noteq> CHR ''[''" "c \<noteq> CHR ''{''"
  using assms by (auto simp: is_word_def BSL_def Let_def)

lemma parse_plain:
  assumes "is_word c \<or> (128::nat) \<le> of_char c"
  shows "parse nl (f # fs) ng q (c # rest) = parse nl (push (Lit c) f # fs) ng True rest"
  using plain_char [OF assms] by simp

lemma parse_escaped:
  assumes "\<not> is_word c" "c \<noteq> CHR 0x00"
  shows "parse nl (f # fs) ng q (BSL # c # rest) = parse nl (push (Lit c) f # fs) ng True rest"
proof -
  have "c \<noteq> CHR ''x''" using assms(1) by (auto simp: is_word_def Let_def)
  with assms show ?thesis by simp
qed

lemma char_of_zero: "char_of (0::nat) = CHR 0x00"
  by (simp add: char_of_eq_iff)

lemma parse_nul:
  "parse nl (f # fs) ng q (BSL # ''x00'' @ rest) = parse nl (push (Lit (CHR 0x00)) f # fs) ng True rest"
  by (simp add: hex_val_def Let_def char_of_zero)

lemma parse_quote_char:
  "parse nl (f # fs) ng q (quote_char c @ rest) = parse nl (push (Lit c) f # fs) ng True rest"
proof (cases "is_word c \<or> (128::nat) \<le> of_char c")
  case True
  then show ?thesis by (simp add: quote_char_def parse_plain del: parse.simps)
next
  case False
  show ?thesis
  proof (cases "c = CHR 0x00")
    case True
    with False parse_nul [of nl f fs ng q rest] show ?thesis by (simp add: quote_char_def del: parse.simps)
  next
    case nz: False
    with False show ?thesis by (simp add: quote_char_def parse_escaped del: parse.simps)
  qed
qed

lemma parse_re2_escape:
  "parse nl (f # fs) ng q (re2_escape l @ rest) =
     parse nl (Frame (alts f) (rev (map Lit l) @ cur f) (gidx f) # fs) ng (q \<or> l \<noteq> []) rest"
proof (induction l arbitrary: f q)
  case Nil
  show ?case by (simp add: re2_escape_def)
next
  case (Cons c l)
  have "re2_escape (c # l) @ rest = quote_char c @ (re2_escape l @ rest)"
    by (simp add: re2_escape_def)
  then show ?case
    by (simp only: parse_quote_char Cons.IH) (simp add: push_def)
qed

lemma foldr_Cat_no_backref:
  "has_backref (foldr Cat (map Lit l) r) = has_backref r"
  by (induction l) simp_all

lemma RE2_prefix_pattern:
  "RE2 (''^'' @ re2_escape l) = Inr (leftmost (Cat Bol (foldr Cat (map Lit l) Eps)) 0)"
proof -
  have "parse False [Frame [] [] 0] 0 False (''^'' @ re2_escape l)
      = parse False [Frame [] [Bol] 0] 0 True (re2_escape l @ [])"
    by (simp add: BSL_def push_def)
  also have "\<dots> = Inr (Cat Bol (foldr Cat (map Lit l) Eps), 0)"
    by (simp only: parse_re2_escape) (simp add: close_frame_def seq_def)
  finally show ?thesis by (simp add: RE2_def foldr_Cat_no_backref)
qed

lemma RE2_suffix_pattern:
  "RE2 (re2_escape l @ ''$'') = Inr (leftmost (foldr Cat (map Lit l) (Cat Eol Eps)) 0)"
proof -
  have "parse False [Frame [] [] 0] 0 False (re2_escape l @ ''$'')
      = parse False [Frame [] (rev (map Lit l)) 0] 0 (l \<noteq> []) ''$''"
    by (simp only: parse_re2_escape) simp
  also have "\<dots> = Inr (foldr Cat (map Lit l) (Cat Eol Eps), 0)"
    by (simp add: BSL_def push_def close_frame_def seq_def)
  finally show ?thesis by (simp add: RE2_def foldr_Cat_no_backref)
qed

lemma prefix_drop_Cons:
  "prefix (x # xs) (drop i t) \<longleftrightarrow> i < length t \<and> t ! i = x \<and> prefix xs (drop (Suc i) t)"
proof (cases "i < length t")
  case True
  then have "drop i t = t ! i # drop (Suc i) t" by (simp add: Cons_nth_drop_Suc)
  with True show ?thesis by auto
next
  case False
  then show ?thesis by simp
qed

lemma ms_literals:
  "ms (foldr Cat (map Lit l) r) t i c =
     (if prefix l (drop i t) then ms r t (i + length l) c else [])"
proof (induction l arbitrary: i)
  case Nil
  show ?case by simp
next
  case (Cons x xs)
  show ?case by (simp add: Cons.IH prefix_drop_Cons)
qed

lemma first_match_None_iff:
  "first_match f is = None \<longleftrightarrow> (\<forall>i \<in> set is. f i = None)"
  by (induction "is") (auto split: option.splits)

lemma match_at_None_iff:
  "match_at r ng t i = None \<longleftrightarrow> ms r t i (replicate ng None) = []"
  by (simp add: match_at_def split: list.splits)

lemma leftmost_found_iff:
  "leftmost r ng t 0 \<noteq> None \<longleftrightarrow> (\<exists>i \<le> length t. ms r t i (replicate ng None) \<noteq> [])"
proof -
  have "\<And>i. i \<in> set [0..<Suc (length t)] \<longleftrightarrow> i \<le> length t" by auto
  then have "(\<forall>i \<in> set [0..<Suc (length t)]. match_at r ng t i = None)
      \<longleftrightarrow> (\<forall>i \<le> length t. ms r t i (replicate ng None) = [])"
    by (simp only: Ball_def match_at_None_iff)
  then show ?thesis by (simp only: leftmost_def first_match_None_iff) blast
qed

lemma is_not_None_search:
  assumes "eng pattern = Inr mt"
  shows "is_not_None (py_search eng pattern s) = Some (Inr (mt s 0 \<noteq> None))"
  using assms by (cases "mt s 0") (simp_all add: py_search_def is_not_None_def)

lemma search_prefix_pattern:
  "is_not_None (py_search RE2 (''^'' @ re2_escape l) s) = Some (Inr (prefix l s))"
proof -
  have "leftmost (Cat Bol (foldr Cat (map Lit l) Eps)) 0 s 0 \<noteq> None \<longleftrightarrow> prefix l s"
    unfolding leftmost_found_iff by (auto simp: ms_literals)
  with is_not_None_search [where eng = RE2 and pattern = "''^'' @ re2_escape l", OF RE2_prefix_pattern]
  show ?thesis by simp
qed

lemma suffix_drop_iff:
  "suffix l t \<longleftrightarrow> (\<exists>i \<le> length t. prefix l (drop i t) \<and> i + length l = length t)"
proof
  assume "suffix l t"
  then obtain zs where t: "t = zs @ l" by (auto simp: suffix_def)
  then have "length zs \<le> length t" "prefix l (drop (length zs) t)" "length zs + length l = length t"
    by simp_all
  then show "\<exists>i \<le> length t. prefix l (drop i t) \<and> i + length l = length t" by blast
next
  assume "\<exists>i \<le> length t. prefix l (drop i t) \<and> i + length l = length t"
  then obtain i where i: "i \<le> length t" "prefix l (drop i t)" "i + length l = length t" by blast
  from i(2) obtain ys where ys: "drop i t = l @ ys" by (auto simp: prefix_def)
  then have "length (drop i t) = length l + length ys" by simp
  then have "length t - i = length l + length ys" by simp
  with i(3) have "length ys = 0" by arith
  then have "ys = []" by simp
  with ys have "t = take i t @ l" by (metis append_Nil2 append_take_drop_id)
  then show "suffix l t" by (metis suffixI)
qed

lemma search_suffix_pattern:
  "is_not_None (py_search RE2 (re2_escape l @ ''$'') s) = Some (Inr (suffix l s))"
proof -
  have "leftmost (foldr Cat (map Lit l) (Cat Eol Eps)) 0 s 0 \<noteq> None \<longleftrightarrow> suffix l s"
  proof -
    have "\<And>i c. ms (foldr Cat (map Lit l) (Cat Eol Eps)) s i c \<noteq> []
        \<longleftrightarrow> prefix l (drop i s) \<and> i + length l = length s"
      by (simp add: ms_literals)
    then show ?thesis by (simp only: leftmost_found_iff suffix_drop_iff)
  qed
  with is_not_None_search [where eng = RE2 and pattern = "re2_escape l @ ''$''", OF RE2_suffix_pattern]
  show ?thesis by simp
qed

text \<open>
  Claim C5.  For every string \<open>s\<close> and literal \<open>l\<close>, \<^verbatim>\<open>startswith\<close> evaluates to true
  exactly when \<open>l\<close> is a prefix of \<open>s\<close>, character for character: no character of \<open>l\<close>
  is read as regex syntax.
\<close>

theorem startswith_literal_prefix:
  "evaluate (startswith RE2 RE (lit s) (AsStr l)) row = Some (Inr (prefix l s))"
  by (simp only: eval_startswith_lit search_prefix_pattern)

text \<open>
  Witness for C5: \<^verbatim>\<open>abc.def\<close> does not start with the literal \<^verbatim>\<open>.\<close>, and \<^verbatim>\<open>abc\<close> not with
  \<^verbatim>\<open>a.\<close>, though as regexes both would match; \<^verbatim>\<open>a.c\<close> starts with \<^verbatim>\<open>a.\<close>.
\<close>

theorem startswith_literal_prefix_witness:
  "evaluate (startswith RE2 RE (lit ''abc.def'') (AsStr ''.'')) empty_row = Some (Inr False)
   \<and> evaluate (startswith RE2 RE (lit ''a.c'') (AsStr ''a.'')) empty_row = Some (Inr True)
   \<and> evaluate (startswith RE2 RE (lit ''abc'') (AsStr ''a.'')) empty_row = Some (Inr False)"
  using startswith_literal_prefix [of "''abc.def''" "''.''" empty_row]
    startswith_literal_prefix [of "''a.c''" "''a.''" empty_row]
    startswith_literal_prefix [of "''abc''" "''a.''" empty_row]
  by simp

text \<open>
  Claim C6.  For every string \<open>s\<close> and literal \<open>l\<close>, \<^verbatim>\<open>endswith\<close> evaluates to true exactly
  when \<open>s\<close> ends with \<open>l\<close> as literal text: the escaped literal is followed by \<^verbatim>\<open>$\<close>, which
  the linear-time engine matches at the end of the text only.
\<close>

theorem endswith_literal_suffix:
  "evaluate (endswith RE2 RE (lit s) (AsStr l)) row = Some (Inr (suffix l s))"
  by (simp only: eval_endswith_lit search_suffix_pattern)

text \<open>
  Witness for C6: \<^verbatim>\<open>a+b\<close> ends with the literal \<^verbatim>\<open>+b\<close> and \<^verbatim>\<open>abb\<close> does not; a text that
  ends with a newline after \<^verbatim>\<open>ab\<close> does not end with \<^verbatim>\<open>ab\<close>.
\<close>

theorem endswith_literal_suffix_witness:
  "evaluate (endswith RE2 RE (lit ''a+b'') (AsStr ''+b'')) empty_row = Some (Inr True)
   \<and> evaluate (endswith RE2 RE (lit ''abb'') (AsStr ''+b'')) empty_row = Some (Inr False)
   \<and> evaluate (endswith RE2 RE (lit (''ab'' @ [CHR 0x0A])) (AsStr ''ab'')) empty_row = Some (Inr False)"
  using endswith_literal_suffix [of "''a+b''" "''+b''" empty_row]
    endswith_literal_suffix [of "''abb''" "''+b''" empty_row]
    endswith_literal_suffix [of "''ab'' @ [CHR 0x0A]" "''ab''" empty_row]
  by (simp add: suffix_def)


text \<open>
  The \<^verbatim>\<open>except\<close> branch of \<^verbatim>\<open>endswith\<close>, which is never run, would say otherwise on that
  last text: the \<^verbatim>\<open>$\<close> of the backtracking engine also matches before a final newline.
\<close>

lemma re_dollar_before_final_newline:
  "is_not_None (py_search RE (re_escape ''ab'' @ ''$'') (''ab'' @ [CHR 0x0A])) = Some (Inr True)"
  by code_simp

section \<open>The example scenarios of the spec\<close>

text \<open>
  Scenarios 1 and 5 of the spec, on the concrete engine: an unlimited split keeps the
  empty field, and \<^verbatim>\<open>rlike\<close> finds the anchored pattern.
\<close>

lemma scenario_split_unlimited:
  "evaluate (split RE2 RE (IsColumn (lit ''a,b,,c'')) '','' (- 1)) empty_row
     = Some (Inr [Some ''a'', Some ''b'', Some [], Some ''c''])"
  unfolding eval_split_lit by code_simp

lemma scenario_rlike_anchored:
  "evaluate (rlike RE2 RE (lit ''hello'') ''^h.*o$'') empty_row = Some (Inr True)"
  unfolding eval_rlike_lit by code_simp

end
